theory Spec2Isabelle
  imports Main
begin

section \<open>Values, registries and transport calls\<close>

text \<open>
  A payload field or a connection identifier is a Python string or \<open>None\<close>: \<open>None\<close> is what
  \<open>data.get(key)\<close> returns for an absent field. A payload \<open>data\<close> is the dictionary the
  transport hands to a handler, read only through \<open>data.get\<close>.
\<close>

type_synonym pyval = "string option"

type_synonym payload = "string \<Rightarrow> pyval"

text \<open>The two role strings the source stores, \<open>"host"\<close> and \<open>"participant"\<close>.\<close>

datatype role = Host | Participant

text \<open>An entry of \<open>meetings\<close>: \<open>{"host_sid": ..., "participants": [...]}\<close>.\<close>

record meeting =
  host_sid :: pyval
  participants :: "pyval list"

text \<open>An entry of \<open>active_users\<close>: \<open>{"user_id": ..., "meeting_code": ..., "role": ...}\<close>.\<close>

record user_data =
  user_id :: pyval
  meeting_code :: pyval
  role :: role

text \<open>The two module-level dictionaries.\<close>

record state =
  meetings :: "pyval \<rightharpoonup> meeting"
  active_users :: "pyval \<rightharpoonup> user_data"

definition init :: state where
  "init = \<lparr>meetings = Map.empty, active_users = Map.empty\<rparr>"

text \<open>
  The calls a handler makes on the Socket.IO server, in program order. \<open>To v\<close> is the keyword
  \<open>to=v\<close>; \<open>Room r skip\<close> is \<open>room=r, skip_sid=skip\<close> (\<open>skip = None\<close> when the keyword is
  not given). The data of an emit is a dictionary literal, kept as its key/value pairs, or
  \<open>None\<close> when \<open>emit\<close> gets no data argument.
\<close>

datatype target = To pyval | Room pyval pyval

datatype sio_call =
    Emit string "(string \<times> pyval) list option" target
  | EnterRoom pyval pyval
  | LeaveRoom pyval pyval

text \<open>\<open>meetings[meeting_code]\<close> on a missing key raises \<open>KeyError\<close>.\<close>

datatype py_error = KeyError

type_synonym result = "py_error + state \<times> sio_call list"

section \<open>The handlers\<close>

text \<open>
  One function for each \<open>@sio.event\<close> handler of \<open>socketserver.py\<close>. A handler takes the
  registries and returns them updated, with the calls it made on the server; it is run to
  its end before the next event is handled. The calls are recorded, not interpreted.
\<close>

definition connect :: "state \<Rightarrow> string \<Rightarrow> result" where
  "connect st sid = Inr (st, [])"

definition disconnect :: "state \<Rightarrow> string \<Rightarrow> result" where
  "disconnect st sid =
     (case active_users st (Some sid) of
        None \<Rightarrow> Inr (st, [])
      | Some ud \<Rightarrow>
          (let mc = meeting_code ud in
           case meetings st mc of
             None \<Rightarrow> Inr (st\<lparr>active_users := (active_users st)(Some sid := None)\<rparr>, [])
           | Some m \<Rightarrow>
               if role ud = Host then
                 Inr (st\<lparr>meetings := (meetings st)(mc := None),
                         active_users := (active_users st)(Some sid := None)\<rparr>,
                      [Emit ''meeting_ended'' None (Room mc None)])
               else
                 (let m' = (if Some sid \<in> set (participants m)
                            then m\<lparr>participants := remove1 (Some sid) (participants m)\<rparr>
                            else m)
                  in Inr (st\<lparr>meetings := (meetings st)(mc \<mapsto> m'),
                             active_users := (active_users st)(Some sid := None)\<rparr>,
                          [Emit ''participant_left'' (Some [(''sid'', Some sid)])
                             (Room mc None)]))))"

definition start_meeting :: "state \<Rightarrow> string \<Rightarrow> payload \<Rightarrow> result" where
  "start_meeting st sid data =
     (let mc = data ''meeting_code'';
          uid = data ''user_id''
      in Inr (st\<lparr>meetings := (meetings st)(mc \<mapsto> \<lparr>host_sid = Some sid, participants = []\<rparr>),
                 active_users := (active_users st)
                   (Some sid \<mapsto> \<lparr>user_id = uid, meeting_code = mc, role = Host\<rparr>)\<rparr>,
              [EnterRoom (Some sid) mc,
               Emit ''meeting_started''
                 (Some [(''status'', Some ''success''), (''meeting_code'', mc)])
                 (To (Some sid))]))"

definition request_join :: "state \<Rightarrow> string \<Rightarrow> payload \<Rightarrow> result" where
  "request_join st sid data =
     (let mc = data ''meeting_code'';
          user_info = data ''user_info''
      in case meetings st mc of
           None \<Rightarrow>
             Inr (st, [Emit ''join_error'' (Some [(''message'', Some ''Invalid meeting code'')])
                         (To (Some sid))])
         | Some m \<Rightarrow>
             Inr (st, [Emit ''join_request_received''
                         (Some [(''sid'', Some sid), (''user_info'', user_info)])
                         (To (host_sid m)),
                       Emit ''waiting_for_host''
                         (Some [(''message'', Some ''Waiting for host to let you in...'')])
                         (To (Some sid))]))"

text \<open>
  \<open>active_users.get(sid, {}).get("meeting_code")\<close>: \<open>None\<close> when the sender has no entry.
\<close>

definition sender_code :: "state \<Rightarrow> string \<Rightarrow> pyval" where
  "sender_code st sid =
     (case active_users st (Some sid) of None \<Rightarrow> None | Some ud \<Rightarrow> meeting_code ud)"

text \<open>
  In the allow branch \<open>sio.enter_room\<close> is called first; the lookup
  \<open>meetings[meeting_code]\<close> that follows raises before either dictionary is written.
\<close>

definition host_response :: "state \<Rightarrow> string \<Rightarrow> payload \<Rightarrow> result" where
  "host_response st sid data =
     (let requester_sid = data ''requester_sid'';
          action = data ''action'';
          mc = sender_code st sid
      in if action = Some ''allow'' then
           (case meetings st mc of
              None \<Rightarrow> Inl KeyError
            | Some m \<Rightarrow>
                Inr (st\<lparr>meetings := (meetings st)
                          (mc \<mapsto> m\<lparr>participants := participants m @ [requester_sid]\<rparr>),
                        active_users := (active_users st)
                          (requester_sid \<mapsto>
                             \<lparr>user_id = data ''user_id'', meeting_code = mc,
                              role = Participant\<rparr>)\<rparr>,
                     [EnterRoom requester_sid mc,
                      Emit ''join_accepted'' (Some [(''meeting_code'', mc)]) (To requester_sid),
                      Emit ''participant_joined'' (Some [(''sid'', requester_sid)])
                        (Room mc requester_sid)]))
         else
           Inr (st, [Emit ''join_denied''
                       (Some [(''message'', Some ''The host declined your request.'')])
                       (To requester_sid)]))"

definition kick_participant :: "state \<Rightarrow> string \<Rightarrow> payload \<Rightarrow> result" where
  "kick_participant st sid data =
     (let target_sid = data ''target_sid'' in
      case active_users st (Some sid) of
        None \<Rightarrow> Inr (st, [])
      | Some ud \<Rightarrow>
          if role ud = Host then
            (let mc = meeting_code ud in
             case meetings st mc of
               None \<Rightarrow> Inl KeyError
             | Some m \<Rightarrow>
                 if target_sid \<in> set (participants m) then
                   Inr (st\<lparr>meetings := (meetings st)
                             (mc \<mapsto> m\<lparr>participants := remove1 target_sid (participants m)\<rparr>)\<rparr>,
                        [Emit ''kicked_by_host'' None (To target_sid),
                         LeaveRoom target_sid mc,
                         Emit ''participant_left'' (Some [(''sid'', target_sid)])
                           (Room mc None)])
                 else Inr (st, []))
          else Inr (st, []))"

definition end_meeting :: "state \<Rightarrow> string \<Rightarrow> payload \<Rightarrow> result" where
  "end_meeting st sid data =
     (case active_users st (Some sid) of
        None \<Rightarrow> Inr (st, [])
      | Some ud \<Rightarrow>
          if role ud = Host then
            (let mc = meeting_code ud in
             Inr (st\<lparr>meetings := (meetings st)(mc := None)\<rparr>,
                  [Emit ''meeting_ended'' None (Room mc None)]))
          else Inr (st, []))"

definition webrtc_signal :: "state \<Rightarrow> string \<Rightarrow> payload \<Rightarrow> result" where
  "webrtc_signal st sid data =
     (let target_sid = data ''target_sid'';
          pl = data ''payload''
      in Inr (st, [Emit ''webrtc_signal'' (Some [(''sender_sid'', Some sid), (''payload'', pl)])
                     (To target_sid)]))"

section \<open>Inbound events and runs\<close>

datatype event =
    Connect
  | Disconnect
  | StartMeeting payload
  | RequestJoin payload
  | HostResponse payload
  | KickParticipant payload
  | EndMeeting payload
  | WebrtcSignal payload

fun handle :: "state \<Rightarrow> string \<Rightarrow> event \<Rightarrow> result" where
  "handle st sid Connect = connect st sid"
| "handle st sid Disconnect = disconnect st sid"
| "handle st sid (StartMeeting data) = start_meeting st sid data"
| "handle st sid (RequestJoin data) = request_join st sid data"
| "handle st sid (HostResponse data) = host_response st sid data"
| "handle st sid (KickParticipant data) = kick_participant st sid data"
| "handle st sid (EndMeeting data) = end_meeting st sid data"
| "handle st sid (WebrtcSignal data) = webrtc_signal st sid data"

text \<open>
  The registries after one event. A handler that raises has written neither dictionary, so
  the registries stay as they were and the server goes on with the next event.
\<close>

definition after :: "state \<Rightarrow> string \<Rightarrow> event \<Rightarrow> state" where
  "after st sid ev = (case handle st sid ev of Inl e \<Rightarrow> st | Inr (st', out) \<Rightarrow> st')"

fun exec :: "state \<Rightarrow> (string \<times> event) list \<Rightarrow> state" where
  "exec st [] = st"
| "exec st ((sid, ev) # evs) = exec (after st sid ev) evs"

text \<open>
  A run avoids a kind of event when no event of the run is of that kind in the state it is
  handled in.
\<close>

fun avoids ::
  "(state \<Rightarrow> string \<Rightarrow> event \<Rightarrow> bool) \<Rightarrow> state \<Rightarrow> (string \<times> event) list \<Rightarrow> bool" where
  "avoids bad st [] = True"
| "avoids bad st ((sid, ev) # evs) = (\<not> bad st sid ev \<and> avoids bad (after st sid ev) evs)"

section \<open>Rooms\<close>

text \<open>
  Modelled from the spec: the room table of the Socket.IO server is not part of the source.
  Section 9 of the specification describes a room as "an explicit mapping from meeting
  code to the live set of member connection handles". The source's calls
  \<open>enter_room(sid, room)\<close> and \<open>leave_room(sid, room)\<close>, made without \<open>await\<close>, add and remove
  a member at once; an emit with \<open>room=r\<close> is addressed to the members \<open>r\<close> has when the call
  is made.
\<close>

type_synonym rooms = "pyval \<Rightarrow> pyval set"

definition no_rooms :: rooms where
  "no_rooms = (\<lambda>r. {})"

fun room_call :: "rooms \<Rightarrow> sio_call \<Rightarrow> rooms" where
  "room_call rm (EnterRoom c r) = rm(r := insert c (rm r))"
| "room_call rm (LeaveRoom c r) = rm(r := rm r - {c})"
| "room_call rm (Emit e d t) = rm"

definition rooms_after :: "rooms \<Rightarrow> sio_call list \<Rightarrow> rooms" where
  "rooms_after rm calls = foldl room_call rm calls"

text \<open>
  The calls one event makes on the server. \<open>host_response\<close> has called \<open>enter_room\<close> when
  its lookup raises; \<open>kick_participant\<close> raises before its first call.
\<close>

definition calls_made :: "state \<Rightarrow> string \<Rightarrow> event \<Rightarrow> sio_call list" where
  "calls_made st sid ev =
     (case handle st sid ev of
        Inr (st', out) \<Rightarrow> out
      | Inl e \<Rightarrow>
          (case ev of
             HostResponse data \<Rightarrow> [EnterRoom (data ''requester_sid'') (sender_code st sid)]
           | _ \<Rightarrow> []))"

text \<open>The room table after a run, next to the registries \<open>exec\<close> computes.\<close>

fun exec_rooms :: "state \<Rightarrow> rooms \<Rightarrow> (string \<times> event) list \<Rightarrow> rooms" where
  "exec_rooms st rm [] = rm"
| "exec_rooms st rm ((sid, ev) # evs) =
     exec_rooms (after st sid ev) (rooms_after rm (calls_made st sid ev)) evs"

section \<open>Properties of the registries\<close>

text \<open>No meeting lists its own host among its participants.\<close>

definition host_not_participant :: "state \<Rightarrow> bool" where
  "host_not_participant st =
     (\<forall>mc m. meetings st mc = Some m \<longrightarrow> host_sid m \<notin> set (participants m))"

text \<open>No meeting lists a connection twice among its participants.\<close>

definition participants_distinct :: "state \<Rightarrow> bool" where
  "participants_distinct st =
     (\<forall>mc m. meetings st mc = Some m \<longrightarrow> distinct (participants m))"

text \<open>Connection \<open>c\<close> is the host or a participant of the meeting registered under \<open>mc\<close>.\<close>

definition is_member :: "state \<Rightarrow> pyval \<Rightarrow> pyval \<Rightarrow> bool" where
  "is_member st c mc =
     (case meetings st mc of
        None \<Rightarrow> False
      | Some m \<Rightarrow> host_sid m = c \<or> c \<in> set (participants m))"

definition one_meeting_each :: "state \<Rightarrow> bool" where
  "one_meeting_each st =
     (\<forall>c mc mc'. is_member st c mc \<and> is_member st c mc' \<longrightarrow> mc = mc')"


text \<open>
  A \<open>host_response\<close> with action allow whose requester is the host of the sender's meeting.
\<close>

fun admits_host :: "state \<Rightarrow> string \<Rightarrow> event \<Rightarrow> bool" where
  "admits_host st sid (HostResponse data) =
     (data ''action'' = Some ''allow'' \<and>
      (case meetings st (sender_code st sid) of
         None \<Rightarrow> False
       | Some m \<Rightarrow> data ''requester_sid'' = host_sid m))"
| "admits_host st sid ev = False"

text \<open>
  A \<open>host_response\<close> with action allow whose requester is already a participant of the
  sender's meeting.
\<close>

fun admits_again :: "state \<Rightarrow> string \<Rightarrow> event \<Rightarrow> bool" where
  "admits_again st sid (HostResponse data) =
     (data ''action'' = Some ''allow'' \<and>
      (case meetings st (sender_code st sid) of
         None \<Rightarrow> False
       | Some m \<Rightarrow> data ''requester_sid'' \<in> set (participants m)))"
| "admits_again st sid ev = False"

text \<open>
  A \<open>start_meeting\<close> by a connection that is a member of a meeting under another code, or a
  \<open>host_response\<close> with action allow that admits (the sender's meeting is registered, so the
  handler does not raise) a requester who is a member of a meeting under another code than
  the sender's.
\<close>

fun joins_second :: "state \<Rightarrow> string \<Rightarrow> event \<Rightarrow> bool" where
  "joins_second st sid (StartMeeting data) =
     (\<exists>mc'. mc' \<noteq> data ''meeting_code'' \<and> is_member st (Some sid) mc')"
| "joins_second st sid (HostResponse data) =
     (data ''action'' = Some ''allow'' \<and>
      (case meetings st (sender_code st sid) of
         None \<Rightarrow> False
       | Some m \<Rightarrow>
           (\<exists>mc'. mc' \<noteq> sender_code st sid \<and> is_member st (data ''requester_sid'') mc')))"
| "joins_second st sid ev = False"

text \<open>
  One meeting entry compared with what it was: same host, no new participant, no new
  repetition.
\<close>

definition trimmed :: "meeting \<Rightarrow> meeting \<Rightarrow> bool" where
  "trimmed m m' =
     (host_sid m' = host_sid m \<and> set (participants m') \<subseteq> set (participants m)
      \<and> (distinct (participants m) \<longrightarrow> distinct (participants m')))"

definition shrinks :: "state \<Rightarrow> state \<Rightarrow> bool" where
  "shrinks st st' =
     (\<forall>x m'. meetings st' x = Some m' \<longrightarrow> (\<exists>m. meetings st x = Some m \<and> trimmed m m'))"

section \<open>Scenario states\<close>

text \<open>Host \<open>H\<close> has started meeting \<open>ABC\<close> and admitted \<open>P\<close>.\<close>

definition meeting_with_P :: state where
  "meeting_with_P =
     exec init
       [(''H'', StartMeeting (map_of [(''meeting_code'', ''ABC'')])),
        (''H'', HostResponse (map_of [(''requester_sid'', ''P''), (''action'', ''allow'')]))]"

text \<open>Host \<open>H\<close> has started meeting \<open>ABC\<close> and admitted \<open>P1\<close>, then \<open>P2\<close>.\<close>

definition run_P1_P2 :: "(string \<times> event) list" where
  "run_P1_P2 =
     [(''H'', StartMeeting (map_of [(''meeting_code'', ''ABC'')])),
      (''H'', HostResponse (map_of [(''requester_sid'', ''P1''), (''action'', ''allow'')])),
      (''H'', HostResponse (map_of [(''requester_sid'', ''P2''), (''action'', ''allow'')]))]"

definition meeting_with_P1_P2 :: state where
  "meeting_with_P1_P2 = exec init run_P1_P2"

text \<open>Host \<open>H\<close> has started meeting \<open>ABC\<close> and admitted \<open>P\<close> twice.\<close>

definition meeting_with_P_twice :: state where
  "meeting_with_P_twice =
     exec init
       [(''H'', StartMeeting (map_of [(''meeting_code'', ''ABC'')])),
        (''H'', HostResponse (map_of [(''requester_sid'', ''P''), (''action'', ''allow'')])),
        (''H'', HostResponse (map_of [(''requester_sid'', ''P''), (''action'', ''allow'')]))]"

text \<open>
  The run in which host \<open>H\<close> starts meeting \<open>ABC\<close>, admits \<open>P\<close> twice and kicks \<open>P\<close> once.
\<close>

definition run_P_twice_kicked :: "(string \<times> event) list" where
  "run_P_twice_kicked =
     [(''H'', StartMeeting (map_of [(''meeting_code'', ''ABC'')])),
      (''H'', HostResponse (map_of [(''requester_sid'', ''P''), (''action'', ''allow'')])),
      (''H'', HostResponse (map_of [(''requester_sid'', ''P''), (''action'', ''allow'')])),
      (''H'', KickParticipant (map_of [(''target_sid'', ''P'')]))]"

text \<open>
  Host \<open>H\<close> has started meeting \<open>A\<close>, admitted \<open>P\<close>, and then started meeting \<open>B\<close>.
\<close>

definition meetings_A_and_B :: state where
  "meetings_A_and_B =
     exec init
       [(''H'', StartMeeting (map_of [(''meeting_code'', ''A'')])),
        (''H'', HostResponse (map_of [(''requester_sid'', ''P''), (''action'', ''allow'')])),
        (''H'', StartMeeting (map_of [(''meeting_code'', ''B'')]))]"

lemmas handler_defs = Let_def connect_def disconnect_def start_meeting_def request_join_def
  host_response_def kick_participant_def end_meeting_def webrtc_signal_def sender_code_def

lemmas run_defs = after_def init_def meeting_with_P_def run_P1_P2_def meeting_with_P1_P2_def
  meeting_with_P_twice_def run_P_twice_kicked_def meetings_A_and_B_def

lemmas room_defs = calls_made_def rooms_after_def no_rooms_def

section \<open>Join requests and disconnects\<close>

text \<open>
  C7: \<open>request_join\<close> with a meeting code that has no entry in \<open>meetings\<close> emits exactly one
  \<open>join_error\<close>, addressed to the requester, makes no other call and leaves both registries
  as they were.
\<close>

theorem request_join_unknown_meeting:
  assumes "meetings st (data ''meeting_code'') = None"
  shows "request_join st sid data =
           Inr (st, [Emit ''join_error'' (Some [(''message'', Some ''Invalid meeting code'')])
                       (To (Some sid))])"
  using assms by (simp add: request_join_def)

theorem request_join_unknown_meeting_witness:
  "meetings init (map_of [(''meeting_code'', ''ABC'')] ''meeting_code'') = None
   \<and> request_join init ''P'' (map_of [(''meeting_code'', ''ABC'')]) =
       Inr (init, [Emit ''join_error'' (Some [(''message'', Some ''Invalid meeting code'')])
                     (To (Some ''P''))])"
  using request_join_unknown_meeting [of init "map_of [(''meeting_code'', ''ABC'')]" "''P''"]
  by (simp add: init_def)


text \<open>
  C10: a connection whose \<open>active_users\<close> entry names a meeting code that is not in
  \<open>meetings\<close> is dropped from \<open>active_users\<close> by \<open>disconnect\<close>, and nothing is emitted.
\<close>

theorem disconnect_stale_meeting:
  assumes "active_users st (Some sid) = Some ud"
    and "meetings st (meeting_code ud) = None"
  shows "disconnect st sid =
           Inr (st\<lparr>active_users := (active_users st)(Some sid := None)\<rparr>, [])"
  using assms by (simp add: disconnect_def)

theorem disconnect_stale_meeting_witness:
  "active_users (exec meeting_with_P [(''H'', Disconnect)]) (Some ''P'')
     = Some \<lparr>user_id = None, meeting_code = Some ''ABC'', role = Participant\<rparr>
   \<and> meetings (exec meeting_with_P [(''H'', Disconnect)])
       (meeting_code \<lparr>user_id = None, meeting_code = Some ''ABC'', role = Participant\<rparr>)
     = None
   \<and> disconnect (exec meeting_with_P [(''H'', Disconnect)]) ''P'' = Inr (init, [])"
  using disconnect_stale_meeting
    [of "exec meeting_with_P [(''H'', Disconnect)]" "''P''"
        "\<lparr>user_id = None, meeting_code = Some ''ABC'', role = Participant\<rparr>"]
  by (simp add: run_defs handler_defs)

text \<open>
  C6: whatever the state and the connection, the first \<open>disconnect\<close> returns normally and
  does the whole cleanup: it deletes the connection's \<open>active_users\<close> entry and, when that
  entry names a registered meeting, either deletes the meeting and emits \<open>meeting_ended\<close> to
  its room (role host) or removes the connection from the participants and emits
  \<open>participant_left\<close> to its room (any other role); with no entry, or an entry naming no
  registered meeting, it writes nothing to \<open>meetings\<close> and makes no call. Run again at once
  for the same connection, it returns normally, changes neither registry and makes no call.
\<close>

theorem disconnect_idempotent:
  "\<exists>st1 out1.
      disconnect st sid = Inr (st1, out1)
    \<and> active_users st1 = (active_users st)(Some sid := None)
    \<and> (meetings st1, out1) =
        (case active_users st (Some sid) of
           None \<Rightarrow> (meetings st, [])
         | Some ud \<Rightarrow>
             (case meetings st (meeting_code ud) of
                None \<Rightarrow> (meetings st, [])
              | Some m \<Rightarrow>
                  if role ud = Host then
                    ((meetings st)(meeting_code ud := None),
                     [Emit ''meeting_ended'' None (Room (meeting_code ud) None)])
                  else
                    ((meetings st)
                       (meeting_code ud \<mapsto>
                          m\<lparr>participants := remove1 (Some sid) (participants m)\<rparr>),
                     [Emit ''participant_left'' (Some [(''sid'', Some sid)])
                        (Room (meeting_code ud) None)])))
    \<and> disconnect st1 sid = Inr (st1, [])"
proof (cases "active_users st (Some sid)")
  case None
  then have "(active_users st)(Some sid := None) = active_users st"
    by (simp add: fun_upd_idem)
  with None show ?thesis
    by (simp add: disconnect_def)
next
  case (Some ud)
  show ?thesis
  proof (cases "meetings st (meeting_code ud)")
    case None
    with Some show ?thesis
      by (simp add: disconnect_def)
  next
    case m: (Some m)
    show ?thesis
    proof (cases "role ud = Host")
      case True
      with Some m show ?thesis
        by (simp add: disconnect_def Let_def)
    next
      case False
      have "Some sid \<notin> set (participants m)
          \<Longrightarrow> m\<lparr>participants := remove1 (Some sid) (participants m)\<rparr> = m"
        by (simp add: remove1_idem)
      with False Some m show ?thesis
        by (simp add: disconnect_def Let_def)
    qed
  qed
qed

theorem disconnect_idempotent_witness:
  "\<exists>st1.
      disconnect meeting_with_P1_P2 ''P1'' =
        Inr (st1, [Emit ''participant_left'' (Some [(''sid'', Some ''P1'')])
                     (Room (Some ''ABC'') None)])
    \<and> active_users st1 (Some ''P1'') = None
    \<and> meetings st1 (Some ''ABC'') =
        Some \<lparr>host_sid = Some ''H'', participants = [Some ''P2'']\<rparr>
    \<and> disconnect st1 ''P1'' = Inr (st1, [])"
proof -
  have a: "active_users meeting_with_P1_P2 (Some ''P1'')
     = Some \<lparr>user_id = None, meeting_code = Some ''ABC'', role = Participant\<rparr>"
    by (simp add: run_defs handler_defs)
  have m: "meetings meeting_with_P1_P2 (Some ''ABC'')
     = Some \<lparr>host_sid = Some ''H'', participants = [Some ''P1'', Some ''P2'']\<rparr>"
    by (simp add: run_defs handler_defs)
  from disconnect_idempotent [of meeting_with_P1_P2 "''P1''"]
  obtain st1 out1 where
    d: "disconnect meeting_with_P1_P2 ''P1'' = Inr (st1, out1)"
    and u: "active_users st1 = (active_users meeting_with_P1_P2)(Some ''P1'' := None)"
    and e: "(meetings st1, out1) =
        ((meetings meeting_with_P1_P2)
           (Some ''ABC'' \<mapsto> \<lparr>host_sid = Some ''H'', participants = [Some ''P2'']\<rparr>),
         [Emit ''participant_left'' (Some [(''sid'', Some ''P1'')])
            (Room (Some ''ABC'') None)])"
    and n: "disconnect st1 ''P1'' = Inr (st1, [])"
    unfolding a option.case user_data.simps m by auto
  from e have "out1 = [Emit ''participant_left'' (Some [(''sid'', Some ''P1'')])
            (Room (Some ''ABC'') None)]"
    and "meetings st1 (Some ''ABC'')
      = Some \<lparr>host_sid = Some ''H'', participants = [Some ''P2'']\<rparr>"
    by simp_all
  moreover from u have "active_users st1 (Some ''P1'') = None" by simp
  ultimately show ?thesis using d n by blast
qed

section \<open>Handlers that raise, and the missing host check\<close>

text \<open>
  C1: two events on which the handler raises \<open>KeyError\<close>. A connection that never started
  or joined a meeting sends \<open>host_response\<close> with action allow; a host that has ended its
  meeting sends \<open>kick_participant\<close>.
\<close>

theorem handlers_raise_KeyError:
  "handle init ''X''
     (HostResponse (map_of [(''requester_sid'', ''P''), (''action'', ''allow'')]))
     = Inl KeyError
   \<and> handle
       (exec init
          [(''H'', StartMeeting (map_of [(''meeting_code'', ''ABC'')])),
           (''H'', EndMeeting Map.empty)])
       ''H'' (KickParticipant (map_of [(''target_sid'', ''P'')]))
     = Inl KeyError"
  by (simp add: after_def handler_defs init_def)

text \<open>
  C2: \<open>host_response\<close> does not look at the sender's role. Sent with action allow by the
  participant \<open>P\<close> of meeting \<open>ABC\<close>, it admits \<open>Q\<close>: both registries are written and two
  events are emitted. Sent with action deny by a connection with no registry entry, it
  emits \<open>join_denied\<close>.
\<close>

theorem host_response_ignores_role:
  "map_option role (active_users meeting_with_P (Some ''P'')) = Some Participant
   \<and> (case host_response meeting_with_P ''P''
            (map_of [(''requester_sid'', ''Q''), (''action'', ''allow'')]) of
         Inl e \<Rightarrow> False
       | Inr (st', out) \<Rightarrow>
           meetings st' (Some ''ABC'') =
             Some \<lparr>host_sid = Some ''H'', participants = [Some ''P'', Some ''Q'']\<rparr>
         \<and> active_users st' (Some ''Q'') =
             Some \<lparr>user_id = None, meeting_code = Some ''ABC'', role = Participant\<rparr>
         \<and> out = [EnterRoom (Some ''Q'') (Some ''ABC''),
                   Emit ''join_accepted'' (Some [(''meeting_code'', Some ''ABC'')])
                     (To (Some ''Q'')),
                   Emit ''participant_joined'' (Some [(''sid'', Some ''Q'')])
                     (Room (Some ''ABC'') (Some ''Q''))])
   \<and> active_users init (Some ''X'') = None
   \<and> host_response init ''X'' (map_of [(''requester_sid'', ''Y''), (''action'', ''deny'')])
     = Inr (init, [Emit ''join_denied''
                     (Some [(''message'', Some ''The host declined your request.'')])
                     (To (Some ''Y''))])"
  by (simp add: run_defs handler_defs)

section \<open>What runs preserve\<close>

text \<open>
  \<open>disconnect\<close>, \<open>kick_participant\<close> and \<open>end_meeting\<close> only delete meetings or take
  participants out; \<open>connect\<close>, \<open>request_join\<close>, \<open>webrtc_signal\<close> and a \<open>host_response\<close>
  without allow leave \<open>meetings\<close> as it is. The three properties survive all of these;
  \<open>start_meeting\<close> and \<open>host_response\<close> with allow are looked at one by one.
\<close>

lemma trimmed_refl: "trimmed m m"
  by (simp add: trimmed_def)

lemma trimmed_remove1: "trimmed m (m\<lparr>participants := remove1 c (participants m)\<rparr>)"
  using set_remove1_subset [of c "participants m"] by (simp add: trimmed_def)

lemma shrinks_refl: "shrinks st st"
  by (simp add: shrinks_def trimmed_refl)

lemma disconnect_shrinks: "disconnect st sid = Inr (st', out) \<Longrightarrow> shrinks st st'"
  unfolding disconnect_def shrinks_def Let_def
  by (auto simp add: trimmed_refl trimmed_remove1 split: option.splits if_splits)

lemma kick_shrinks: "kick_participant st sid data = Inr (st', out) \<Longrightarrow> shrinks st st'"
  unfolding kick_participant_def shrinks_def Let_def
  by (auto simp add: trimmed_refl trimmed_remove1 split: option.splits if_splits)

lemma end_shrinks: "end_meeting st sid data = Inr (st', out) \<Longrightarrow> shrinks st st'"
  unfolding end_meeting_def shrinks_def Let_def
  by (auto simp add: trimmed_refl split: option.splits if_splits)

lemma shrinks_hnp: "shrinks st st' \<Longrightarrow> host_not_participant st \<Longrightarrow> host_not_participant st'"
  unfolding shrinks_def host_not_participant_def trimmed_def by fastforce

lemma shrinks_pd: "shrinks st st' \<Longrightarrow> participants_distinct st \<Longrightarrow> participants_distinct st'"
  unfolding shrinks_def participants_distinct_def trimmed_def by fastforce

lemma shrinks_member: "shrinks st st' \<Longrightarrow> is_member st' c mc \<Longrightarrow> is_member st c mc"
  unfolding shrinks_def is_member_def trimmed_def by (fastforce split: option.splits)

lemma shrinks_ome: "shrinks st st' \<Longrightarrow> one_meeting_each st \<Longrightarrow> one_meeting_each st'"
  unfolding one_meeting_each_def by (blast dest: shrinks_member)

lemma after_shrinks:
  assumes "\<And>d. ev \<noteq> StartMeeting d"
    and "\<And>d. ev = HostResponse d \<Longrightarrow> d ''action'' \<noteq> Some ''allow''"
  shows "shrinks st (after st sid ev)"
proof (cases ev)
  case Disconnect
  then show ?thesis
    by (auto simp add: after_def shrinks_refl split: sum.splits dest: disconnect_shrinks)
next
  case (StartMeeting d)
  with assms(1) [of d] show ?thesis by simp
next
  case (HostResponse d)
  with assms(2) have "d ''action'' \<noteq> Some ''allow''" by simp
  with HostResponse show ?thesis
    by (simp add: after_def host_response_def Let_def shrinks_refl)
next
  case (KickParticipant d)
  then show ?thesis
    by (auto simp add: after_def shrinks_refl split: sum.splits dest: kick_shrinks)
next
  case (EndMeeting d)
  then show ?thesis
    by (auto simp add: after_def shrinks_refl split: sum.splits dest: end_shrinks)
qed (simp_all add: after_def connect_def request_join_def webrtc_signal_def Let_def shrinks_refl
       split: option.splits)

lemma after_start_meeting:
  "after st sid (StartMeeting d) =
     st\<lparr>meetings := (meetings st)
          (d ''meeting_code'' \<mapsto> \<lparr>host_sid = Some sid, participants = []\<rparr>),
        active_users := (active_users st)
          (Some sid \<mapsto> \<lparr>user_id = d ''user_id'', meeting_code = d ''meeting_code'',
                          role = Host\<rparr>)\<rparr>"
  by (simp add: after_def start_meeting_def Let_def)

lemma after_allow:
  assumes "d ''action'' = Some ''allow''" and "meetings st (sender_code st sid) = Some m"
  shows "after st sid (HostResponse d) =
     st\<lparr>meetings := (meetings st)
          (sender_code st sid \<mapsto> m\<lparr>participants := participants m @ [d ''requester_sid'']\<rparr>),
        active_users := (active_users st)
          (d ''requester_sid'' \<mapsto>
             \<lparr>user_id = d ''user_id'', meeting_code = sender_code st sid,
              role = Participant\<rparr>)\<rparr>"
  using assms by (simp add: after_def host_response_def Let_def)

lemma after_allow_raises:
  assumes "d ''action'' = Some ''allow''" and "meetings st (sender_code st sid) = None"
  shows "after st sid (HostResponse d) = st"
  using assms by (simp add: after_def host_response_def Let_def)

lemma hnp_step:
  assumes "host_not_participant st" and "\<not> admits_host st sid ev"
  shows "host_not_participant (after st sid ev)"
proof (cases "\<exists>d. ev = StartMeeting d")
  case True
  then obtain d where "ev = StartMeeting d" by blast
  with assms(1) show ?thesis
    by (auto simp add: after_start_meeting host_not_participant_def)
next
  case notstart: False
  show ?thesis
  proof (cases "\<exists>d. ev = HostResponse d \<and> d ''action'' = Some ''allow''")
    case True
    then obtain d where ev: "ev = HostResponse d" and al: "d ''action'' = Some ''allow''"
      by blast
    show ?thesis
    proof (cases "meetings st (sender_code st sid)")
      case None
      with ev al assms(1) show ?thesis by (simp add: after_allow_raises)
    next
      case (Some m)
      with ev al assms show ?thesis
        by (auto simp add: after_allow host_not_participant_def)
    qed
  next
    case False
    with notstart have "shrinks st (after st sid ev)"
      by (intro after_shrinks) auto
    then show ?thesis using assms(1) by (rule shrinks_hnp)
  qed
qed

lemma pd_step:
  assumes "participants_distinct st" and "\<not> admits_again st sid ev"
  shows "participants_distinct (after st sid ev)"
proof (cases "\<exists>d. ev = StartMeeting d")
  case True
  then obtain d where "ev = StartMeeting d" by blast
  with assms(1) show ?thesis
    by (auto simp add: after_start_meeting participants_distinct_def)
next
  case notstart: False
  show ?thesis
  proof (cases "\<exists>d. ev = HostResponse d \<and> d ''action'' = Some ''allow''")
    case True
    then obtain d where ev: "ev = HostResponse d" and al: "d ''action'' = Some ''allow''"
      by blast
    show ?thesis
    proof (cases "meetings st (sender_code st sid)")
      case None
      with ev al assms(1) show ?thesis by (simp add: after_allow_raises)
    next
      case (Some m)
      with ev al assms show ?thesis
        by (auto simp add: after_allow participants_distinct_def)
    qed
  next
    case False
    with notstart have "shrinks st (after st sid ev)"
      by (intro after_shrinks) auto
    then show ?thesis using assms(1) by (rule shrinks_pd)
  qed
qed


lemma is_member_after_start:
  "is_member (after st sid (StartMeeting d)) c x =
     (if x = d ''meeting_code'' then c = Some sid else is_member st c x)"
  by (auto simp add: after_start_meeting is_member_def)

lemma is_member_after_allow:
  assumes "d ''action'' = Some ''allow''" and "meetings st (sender_code st sid) = Some m"
  shows "is_member (after st sid (HostResponse d)) c x =
     (is_member st c x \<or> (x = sender_code st sid \<and> c = d ''requester_sid''))"
  using assms by (auto simp add: after_allow is_member_def)

lemma ome_step:
  assumes "one_meeting_each st" and "\<not> joins_second st sid ev"
  shows "one_meeting_each (after st sid ev)"
proof (cases "\<exists>d. ev = StartMeeting d")
  case True
  then obtain d where ev: "ev = StartMeeting d" by blast
  with assms(2) have "\<And>x. is_member st (Some sid) x \<Longrightarrow> x = d ''meeting_code''"
    by auto
  with assms(1) show ?thesis
    unfolding ev one_meeting_each_def is_member_after_start
    by (metis (full_types))
next
  case notstart: False
  show ?thesis
  proof (cases "\<exists>d. ev = HostResponse d \<and> d ''action'' = Some ''allow''")
    case True
    then obtain d where ev: "ev = HostResponse d" and al: "d ''action'' = Some ''allow''"
      by blast
    show ?thesis
    proof (cases "meetings st (sender_code st sid)")
      case None
      with ev al assms(1) show ?thesis by (simp add: after_allow_raises)
    next
      case (Some m)
      from assms(2) ev al Some
      have "\<And>x. is_member st (d ''requester_sid'') x \<Longrightarrow> x = sender_code st sid"
        by auto
      moreover have "\<And>c x. is_member (after st sid (HostResponse d)) c x =
          (is_member st c x \<or> (x = sender_code st sid \<and> c = d ''requester_sid''))"
        using al Some by (rule is_member_after_allow)
      ultimately show ?thesis
        using assms(1) unfolding ev one_meeting_each_def by metis
    qed
  next
    case False
    with notstart have "shrinks st (after st sid ev)"
      by (intro after_shrinks) auto
    then show ?thesis using assms(1) by (rule shrinks_ome)
  qed
qed

text \<open>A property that every step outside \<open>bad\<close> preserves holds along every run avoiding \<open>bad\<close>.\<close>

lemma avoids_invariant:
  assumes step: "\<And>st sid ev. P st \<Longrightarrow> \<not> bad st sid ev \<Longrightarrow> P (after st sid ev)"
  shows "P st \<Longrightarrow> avoids bad st evs \<Longrightarrow> P (exec st evs)"
proof (induction evs arbitrary: st)
  case Nil
  then show ?case by simp
next
  case (Cons e evs)
  obtain sid ev where e: "e = (sid, ev)" by (cases e)
  from Cons.prems have "P (after st sid ev)" and "avoids bad (after st sid ev) evs"
    by (simp_all add: e step)
  then have "P (exec (after st sid ev) evs)" by (rule Cons.IH)
  then show ?case by (simp add: e)
qed

text \<open>
  C3, as the code has it: with empty registries no meeting lists its own host among its
  participants, and from any state where that holds every run keeps it so, as long as the
  run has no \<open>host_response\<close> with action allow whose requester is the host of the sender's
  meeting.
\<close>

theorem host_not_participant_unless_admitted:
  "host_not_participant init
   \<and> (host_not_participant st \<longrightarrow> avoids admits_host st evs
        \<longrightarrow> host_not_participant (exec st evs))"
proof -
  have "host_not_participant init"
    by (simp add: host_not_participant_def init_def)
  moreover have "host_not_participant st \<Longrightarrow> avoids admits_host st evs
      \<Longrightarrow> host_not_participant (exec st evs)"
    by (rule avoids_invariant [where P = host_not_participant and bad = admits_host])
       (rule hnp_step)
  ultimately show ?thesis by blast
qed

theorem host_not_participant_unless_admitted_witness:
  "host_not_participant init
   \<and> avoids admits_host init
       [(''H'', StartMeeting (map_of [(''meeting_code'', ''ABC'')])),
        (''P'', RequestJoin (map_of [(''meeting_code'', ''ABC'')])),
        (''H'', HostResponse (map_of [(''requester_sid'', ''P''), (''action'', ''allow'')])),
        (''H'', KickParticipant (map_of [(''target_sid'', ''P'')]))]
   \<and> host_not_participant
       (exec init
          [(''H'', StartMeeting (map_of [(''meeting_code'', ''ABC'')])),
           (''P'', RequestJoin (map_of [(''meeting_code'', ''ABC'')])),
           (''H'', HostResponse (map_of [(''requester_sid'', ''P''), (''action'', ''allow'')])),
           (''H'', KickParticipant (map_of [(''target_sid'', ''P'')]))])"
  using host_not_participant_unless_admitted
    [of init
        "[(''H'', StartMeeting (map_of [(''meeting_code'', ''ABC'')])),
          (''P'', RequestJoin (map_of [(''meeting_code'', ''ABC'')])),
          (''H'', HostResponse (map_of [(''requester_sid'', ''P''), (''action'', ''allow'')])),
          (''H'', KickParticipant (map_of [(''target_sid'', ''P'')]))]"]
  by (simp add: run_defs handler_defs)

text \<open>
  \<open>H\<close> starts meeting \<open>ABC\<close> and answers allow to a request it names itself in: the host
  is now in its own participants list.
\<close>

theorem host_in_own_participants_counterexample:
  "meetings
     (exec init
        [(''H'', StartMeeting (map_of [(''meeting_code'', ''ABC'')])),
         (''H'', HostResponse (map_of [(''requester_sid'', ''H''), (''action'', ''allow'')]))])
     (Some ''ABC'')
     = Some \<lparr>host_sid = Some ''H'', participants = [Some ''H'']\<rparr>
   \<and> \<not> host_not_participant
       (exec init
          [(''H'', StartMeeting (map_of [(''meeting_code'', ''ABC'')])),
           (''H'', HostResponse
              (map_of [(''requester_sid'', ''H''), (''action'', ''allow'')]))])"
proof -
  let ?s = "exec init
        [(''H'', StartMeeting (map_of [(''meeting_code'', ''ABC'')])),
         (''H'', HostResponse (map_of [(''requester_sid'', ''H''), (''action'', ''allow'')]))]"
  have m: "meetings ?s (Some ''ABC'')
      = Some \<lparr>host_sid = Some ''H'', participants = [Some ''H'']\<rparr>"
    by (simp add: run_defs handler_defs)
  have "\<not> host_not_participant ?s"
  proof
    assume "host_not_participant ?s"
    with m have "host_sid \<lparr>host_sid = Some ''H'', participants = [Some ''H'']\<rparr>
        \<notin> set (participants \<lparr>host_sid = Some ''H'', participants = [Some ''H'']\<rparr>)"
      unfolding host_not_participant_def by blast
    then show False by simp
  qed
  with m show ?thesis by blast
qed

text \<open>
  C5, as the code has it: with empty registries no participants list has a repeated entry,
  and from any state where that holds every run keeps it so, as long as the run has no
  \<open>host_response\<close> with action allow whose requester is already in the participants list
  of the sender's meeting.
\<close>

theorem participants_distinct_unless_readmitted:
  "participants_distinct init
   \<and> (participants_distinct st \<longrightarrow> avoids admits_again st evs
        \<longrightarrow> participants_distinct (exec st evs))"
proof -
  have "participants_distinct init"
    by (simp add: participants_distinct_def init_def)
  moreover have "participants_distinct st \<Longrightarrow> avoids admits_again st evs
      \<Longrightarrow> participants_distinct (exec st evs)"
    by (rule avoids_invariant [where P = participants_distinct and bad = admits_again])
       (rule pd_step)
  ultimately show ?thesis by blast
qed

theorem participants_distinct_unless_readmitted_witness:
  "participants_distinct init
   \<and> avoids admits_again init
       [(''H'', StartMeeting (map_of [(''meeting_code'', ''ABC'')])),
        (''H'', HostResponse (map_of [(''requester_sid'', ''P1''), (''action'', ''allow'')])),
        (''H'', HostResponse (map_of [(''requester_sid'', ''P2''), (''action'', ''allow'')])),
        (''P1'', Disconnect)]
   \<and> participants_distinct
       (exec init
          [(''H'', StartMeeting (map_of [(''meeting_code'', ''ABC'')])),
           (''H'', HostResponse (map_of [(''requester_sid'', ''P1''), (''action'', ''allow'')])),
           (''H'', HostResponse (map_of [(''requester_sid'', ''P2''), (''action'', ''allow'')])),
           (''P1'', Disconnect)])"
  using participants_distinct_unless_readmitted
    [of init
        "[(''H'', StartMeeting (map_of [(''meeting_code'', ''ABC'')])),
          (''H'', HostResponse (map_of [(''requester_sid'', ''P1''), (''action'', ''allow'')])),
          (''H'', HostResponse (map_of [(''requester_sid'', ''P2''), (''action'', ''allow'')])),
          (''P1'', Disconnect)]"]
  by (simp add: run_defs handler_defs)

text \<open>
  \<open>participants\<close> is a Python list and \<open>host_response\<close> appends to it: allowing \<open>P\<close>
  twice lists \<open>P\<close> twice.
\<close>

theorem duplicate_participant_counterexample:
  "meetings meeting_with_P_twice (Some ''ABC'')
     = Some \<lparr>host_sid = Some ''H'', participants = [Some ''P'', Some ''P'']\<rparr>
   \<and> \<not> participants_distinct meeting_with_P_twice"
proof -
  have m: "meetings meeting_with_P_twice (Some ''ABC'')
      = Some \<lparr>host_sid = Some ''H'', participants = [Some ''P'', Some ''P'']\<rparr>"
    by (simp add: run_defs handler_defs)
  have "\<not> participants_distinct meeting_with_P_twice"
  proof
    assume "participants_distinct meeting_with_P_twice"
    with m have "distinct
        (participants \<lparr>host_sid = Some ''H'', participants = [Some ''P'', Some ''P'']\<rparr>)"
      unfolding participants_distinct_def by blast
    then show False by simp
  qed
  with m show ?thesis by blast
qed

text \<open>
  C4, as the code has it: with empty registries no connection is a member of two meetings,
  and from any state where that holds every run keeps it so, as long as no connection that
  is a member of a meeting under another code starts a meeting or is admitted by a
  \<open>host_response\<close> with action allow. A \<open>host_response\<close> that raises admits nobody and is
  not excluded.
\<close>

theorem one_meeting_each_unless_joined:
  "one_meeting_each init
   \<and> (one_meeting_each st \<longrightarrow> avoids joins_second st evs
        \<longrightarrow> one_meeting_each (exec st evs))"
proof -
  have "one_meeting_each init"
    by (simp add: one_meeting_each_def is_member_def init_def)
  moreover have "one_meeting_each st \<Longrightarrow> avoids joins_second st evs
      \<Longrightarrow> one_meeting_each (exec st evs)"
    by (rule avoids_invariant [where P = one_meeting_each and bad = joins_second])
       (rule ome_step)
  ultimately show ?thesis by blast
qed

theorem one_meeting_each_unless_joined_witness:
  "one_meeting_each init
   \<and> avoids joins_second init
       [(''H'', StartMeeting (map_of [(''meeting_code'', ''ABC'')])),
        (''H'', HostResponse (map_of [(''requester_sid'', ''P''), (''action'', ''allow'')])),
        (''X'', HostResponse (map_of [(''requester_sid'', ''P''), (''action'', ''allow'')])),
        (''G'', StartMeeting (map_of [(''meeting_code'', ''XYZ'')])),
        (''H'', EndMeeting Map.empty)]
   \<and> one_meeting_each
       (exec init
          [(''H'', StartMeeting (map_of [(''meeting_code'', ''ABC'')])),
           (''H'', HostResponse (map_of [(''requester_sid'', ''P''), (''action'', ''allow'')])),
           (''X'', HostResponse (map_of [(''requester_sid'', ''P''), (''action'', ''allow'')])),
           (''G'', StartMeeting (map_of [(''meeting_code'', ''XYZ'')])),
           (''H'', EndMeeting Map.empty)])"
  using one_meeting_each_unless_joined
    [of init
        "[(''H'', StartMeeting (map_of [(''meeting_code'', ''ABC'')])),
          (''H'', HostResponse (map_of [(''requester_sid'', ''P''), (''action'', ''allow'')])),
          (''X'', HostResponse (map_of [(''requester_sid'', ''P''), (''action'', ''allow'')])),
          (''G'', StartMeeting (map_of [(''meeting_code'', ''XYZ'')])),
          (''H'', EndMeeting Map.empty)]"]
  by (simp add: run_defs handler_defs is_member_def)

text \<open>
  \<open>H\<close> starts meeting \<open>A\<close> and then meeting \<open>B\<close>: both entries stay in \<open>meetings\<close> with
  \<open>H\<close> as host.
\<close>

theorem host_of_two_meetings_counterexample:
  "is_member
     (exec init
        [(''H'', StartMeeting (map_of [(''meeting_code'', ''A'')])),
         (''H'', StartMeeting (map_of [(''meeting_code'', ''B'')]))])
     (Some ''H'') (Some ''A'')
   \<and> is_member
       (exec init
          [(''H'', StartMeeting (map_of [(''meeting_code'', ''A'')])),
           (''H'', StartMeeting (map_of [(''meeting_code'', ''B'')]))])
       (Some ''H'') (Some ''B'')
   \<and> \<not> one_meeting_each
       (exec init
          [(''H'', StartMeeting (map_of [(''meeting_code'', ''A'')])),
           (''H'', StartMeeting (map_of [(''meeting_code'', ''B'')]))])"
proof -
  let ?s = "exec init
        [(''H'', StartMeeting (map_of [(''meeting_code'', ''A'')])),
         (''H'', StartMeeting (map_of [(''meeting_code'', ''B'')]))]"
  have a: "is_member ?s (Some ''H'') (Some ''A'')"
    by (simp add: run_defs handler_defs is_member_def)
  have b: "is_member ?s (Some ''H'') (Some ''B'')"
    by (simp add: run_defs handler_defs is_member_def)
  have "\<not> one_meeting_each ?s"
  proof
    assume "one_meeting_each ?s"
    with a b have "Some ''A'' = Some ''B''"
      unfolding one_meeting_each_def by blast
    then show False by simp
  qed
  with a b show ?thesis by blast
qed

section \<open>Rooms along a run\<close>










section \<open>The host disconnects\<close>




section \<open>Kicking a participant\<close>

lemma count_list_remove1_same: "count_list (remove1 x xs) x = count_list xs x - 1"
  by (induction xs) auto

lemma listed_once_remove1: "count_list xs x = 1 \<Longrightarrow> x \<notin> set (remove1 x xs)"
  using count_list_remove1_same [of x xs] by (simp add: count_list_0_iff [symmetric])

text \<open>
  C9, as the code has it: let \<open>h\<close> have an \<open>active_users\<close> entry with role host that names a
  code registered in \<open>meetings\<close>, and let the target be in that meeting's participants list.
  Then \<open>kick_participant\<close> emits \<open>kicked_by_host\<close> to the target, takes the target out of
  the room, and emits \<open>participant_left\<close> to the room, which by then is the remaining room:
  its members without the target. It removes the first occurrence of the target from the
  participants list (so the target is gone from the list when it was listed once), and
  leaves \<open>active_users\<close>, the target's entry included, as it was.
\<close>

theorem kick_removes_one_occurrence:
  assumes "active_users st (Some h) = Some ud" and "role ud = Host"
    and "meetings st (meeting_code ud) = Some m"
    and "data ''target_sid'' \<in> set (participants m)"
  shows "\<exists>st' pre.
           kick_participant st h data =
             Inr (st', pre @ [Emit ''participant_left'' (Some [(''sid'', data ''target_sid'')])
                               (Room (meeting_code ud) None)])
         \<and> pre = [Emit ''kicked_by_host'' None (To (data ''target_sid'')),
                   LeaveRoom (data ''target_sid'') (meeting_code ud)]
         \<and> rooms_after rm pre (meeting_code ud) = rm (meeting_code ud) - {data ''target_sid''}
         \<and> meetings st' (meeting_code ud) =
             Some (m\<lparr>participants := remove1 (data ''target_sid'') (participants m)\<rparr>)
         \<and> (count_list (participants m) (data ''target_sid'') = 1
              \<longrightarrow> data ''target_sid'' \<notin> set (remove1 (data ''target_sid'') (participants m)))
         \<and> active_users st' = active_users st"
proof -
  let ?t = "data ''target_sid''"
  let ?m' = "m\<lparr>participants := remove1 ?t (participants m)\<rparr>"
  let ?st' = "st\<lparr>meetings := (meetings st)(meeting_code ud \<mapsto> ?m')\<rparr>"
  let ?pre = "[Emit ''kicked_by_host'' None (To ?t), LeaveRoom ?t (meeting_code ud)]"
  have "kick_participant st h data =
          Inr (?st', ?pre @ [Emit ''participant_left'' (Some [(''sid'', ?t)])
                               (Room (meeting_code ud) None)])"
    using assms by (simp add: kick_participant_def Let_def)
  moreover have "rooms_after rm ?pre (meeting_code ud) = rm (meeting_code ud) - {?t}"
    by (simp add: rooms_after_def)
  moreover have "meetings ?st' (meeting_code ud) = Some ?m'"
    by simp
  moreover have "count_list (participants m) ?t = 1
      \<longrightarrow> ?t \<notin> set (remove1 ?t (participants m))"
    by (simp add: listed_once_remove1)
  moreover have "active_users ?st' = active_users st"
    by simp
  ultimately show ?thesis by blast
qed

theorem kick_removes_one_occurrence_witness:
  "active_users meeting_with_P1_P2 (Some ''H'')
     = Some \<lparr>user_id = None, meeting_code = Some ''ABC'', role = Host\<rparr>
   \<and> meetings meeting_with_P1_P2 (Some ''ABC'')
     = Some \<lparr>host_sid = Some ''H'', participants = [Some ''P1'', Some ''P2'']\<rparr>
   \<and> count_list [Some ''P1'', Some ''P2''] (Some ''P1'') = 1
   \<and> (\<exists>st' pre.
         kick_participant meeting_with_P1_P2 ''H'' (map_of [(''target_sid'', ''P1'')]) =
           Inr (st', pre @ [Emit ''participant_left'' (Some [(''sid'', Some ''P1'')])
                             (Room (Some ''ABC'') None)])
       \<and> pre = [Emit ''kicked_by_host'' None (To (Some ''P1'')),
                 LeaveRoom (Some ''P1'') (Some ''ABC'')]
       \<and> rooms_after (exec_rooms init no_rooms run_P1_P2) pre (Some ''ABC'')
           = {Some ''H'', Some ''P2''}
       \<and> meetings st' (Some ''ABC'')
           = Some \<lparr>host_sid = Some ''H'', participants = [Some ''P2'']\<rparr>
       \<and> Some ''P1'' \<notin> set [Some ''P2'']
       \<and> active_users st' = active_users meeting_with_P1_P2)"
proof -
  have a: "active_users meeting_with_P1_P2 (Some ''H'')
     = Some \<lparr>user_id = None, meeting_code = Some ''ABC'', role = Host\<rparr>"
    by (simp add: run_defs handler_defs)
  have m: "meetings meeting_with_P1_P2 (Some ''ABC'')
     = Some \<lparr>host_sid = Some ''H'', participants = [Some ''P1'', Some ''P2'']\<rparr>"
    by (simp add: run_defs handler_defs)
  have c: "count_list [Some ''P1'', Some ''P2''] (Some ''P1'') = 1"
    by simp
  have "exec_rooms init no_rooms run_P1_P2 (Some ''ABC'')
      = {Some ''H'', Some ''P1'', Some ''P2''}"
    by (simp add: run_P1_P2_def run_defs handler_defs room_defs insert_commute)
  then have r: "exec_rooms init no_rooms run_P1_P2 (Some ''ABC'') - {Some ''P1''}
      = {Some ''H'', Some ''P2''}"
    by auto
  from kick_removes_one_occurrence
         [of meeting_with_P1_P2 "''H''"
             "\<lparr>user_id = None, meeting_code = Some ''ABC'', role = Host\<rparr>"
             "\<lparr>host_sid = Some ''H'', participants = [Some ''P1'', Some ''P2'']\<rparr>"
             "map_of [(''target_sid'', ''P1'')]" "exec_rooms init no_rooms run_P1_P2"] a m
  have "\<exists>st' pre.
         kick_participant meeting_with_P1_P2 ''H'' (map_of [(''target_sid'', ''P1'')]) =
           Inr (st', pre @ [Emit ''participant_left'' (Some [(''sid'', Some ''P1'')])
                             (Room (Some ''ABC'') None)])
       \<and> pre = [Emit ''kicked_by_host'' None (To (Some ''P1'')),
                 LeaveRoom (Some ''P1'') (Some ''ABC'')]
       \<and> rooms_after (exec_rooms init no_rooms run_P1_P2) pre (Some ''ABC'')
           = exec_rooms init no_rooms run_P1_P2 (Some ''ABC'') - {Some ''P1''}
       \<and> meetings st' (Some ''ABC'')
           = Some \<lparr>host_sid = Some ''H'', participants = [Some ''P2'']\<rparr>
       \<and> Some ''P1'' \<notin> set [Some ''P2'']
       \<and> active_users st' = active_users meeting_with_P1_P2"
    by simp
  with a m c r show ?thesis by force
qed

text \<open>
  Two runs where the claim as worded fails. \<open>P\<close> was admitted twice, so it is listed twice;
  the host kicks \<open>P\<close> and \<open>P\<close> is still in the participants list. \<open>H\<close> started meeting
  \<open>A\<close>, admitted \<open>P\<close> and started meeting \<open>B\<close>: \<open>H\<close> is the \<open>host_sid\<close> of \<open>A\<close> and \<open>P\<close> is
  listed there, but the entry of \<open>H\<close> names \<open>B\<close> and its kick of \<open>P\<close> does nothing.
\<close>

theorem kicked_participant_still_listed_counterexample:
  "active_users meeting_with_P_twice (Some ''H'')
     = Some \<lparr>user_id = None, meeting_code = Some ''ABC'', role = Host\<rparr>
   \<and> meetings meeting_with_P_twice (Some ''ABC'')
     = Some \<lparr>host_sid = Some ''H'', participants = [Some ''P'', Some ''P'']\<rparr>
   \<and> (case kick_participant meeting_with_P_twice ''H'' (map_of [(''target_sid'', ''P'')]) of
         Inl e \<Rightarrow> False
       | Inr (st', out) \<Rightarrow>
           out = [Emit ''kicked_by_host'' None (To (Some ''P'')),
                  LeaveRoom (Some ''P'') (Some ''ABC''),
                  Emit ''participant_left'' (Some [(''sid'', Some ''P'')])
                    (Room (Some ''ABC'') None)]
         \<and> meetings st' (Some ''ABC'')
             = Some \<lparr>host_sid = Some ''H'', participants = [Some ''P'']\<rparr>
         \<and> map_option (\<lambda>m'. Some ''P'' \<in> set (participants m')) (meetings st' (Some ''ABC''))
             = Some True)
   \<and> meetings meetings_A_and_B (Some ''A'')
     = Some \<lparr>host_sid = Some ''H'', participants = [Some ''P'']\<rparr>
   \<and> kick_participant meetings_A_and_B ''H'' (map_of [(''target_sid'', ''P'')])
     = Inr (meetings_A_and_B, [])"
  by (simp add: run_defs handler_defs)

end
